theory Spec2Isabelle
  imports Main
begin

section \<open>Values of the host language\<close>

text \<open>
  The module \<^verbatim>\<open>src/lib/websocket-client.js\<close> holds three parts: the class
  \<^verbatim>\<open>EventEmitter\<close>, the class \<^verbatim>\<open>WebSocketManager\<close> and the hook
  \<^verbatim>\<open>useRealTimeUpdates\<close>. Both classes have one module-level instance
  (\<^verbatim>\<open>eventEmitter\<close>, \<^verbatim>\<open>wsManager\<close>), so the fields of both live in one
  record of the module's state, next to the parts of the browser they act on:
  the sockets they created, the pending timers and the console.

  Values that travel as payloads are JSON-like trees. The module never computes
  with a number: it tests it for truthiness or uses it as a property key. A number
  is therefore kept as the text the host language prints for it (\<open>JNum ''42''\<close>,
  \<open>JNum ''0.5''\<close>, \<open>JNum ''1e+21''\<close>; minus zero prints as \<open>''0''\<close>).
  \<open>JUndefined\<close> is the value of a missing argument or property.
\<close>

datatype json =
    JUndefined
  | JNull
  | JBool bool
  | JNum string
  | JStr string
  | JArr "json list"
  | JObj "(string \<times> json) list"

text \<open>The truthiness test of \<^verbatim>\<open>if (v)\<close> and \<^verbatim>\<open>a && b\<close>.\<close>

fun truthy :: "json \<Rightarrow> bool" where
  "truthy JUndefined = False"
| "truthy JNull = False"
| "truthy (JBool b) = b"
| "truthy (JNum n) = (n \<noteq> ''0'' \<and> n \<noteq> ''NaN'')"
| "truthy (JStr s) = (s \<noteq> [])"
| "truthy (JArr xs) = True"
| "truthy (JObj fs) = True"

text \<open>
  An object that is compared by identity carries its address. Two object literals
  evaluated at different moments have different addresses even when all their
  properties agree; \<open>props\<close> is what \<^verbatim>\<open>JSON.stringify\<close> and the spread
  operator read.
\<close>

record jsobj =
  addr :: nat
  props :: "(string \<times> json) list"

text \<open>
  A subscriber callback is a reference to a function object. What the function does
  is outside the module; the state records each invocation (\<open>calls\<close>) and the store
  \<open>fnstore\<close> tells whether an invocation on a payload throws (\<open>Some e\<close>) or returns.
  Callbacks are taken not to re-enter the emitter or the manager.
\<close>

type_synonym callback = nat

datatype readyState = CONNECTING | OPEN | CLOSING | CLOSED

text \<open>
  A \<^verbatim>\<open>WebSocket\<close> object created by \<^verbatim>\<open>connect\<close>. Its four handlers are
  closures over the \<^verbatim>\<open>userId\<close> argument of that call; \<open>transmitted\<close> lists
  the messages handed to \<^verbatim>\<open>ws.send(JSON.stringify(message))\<close>, oldest first.
\<close>

record socket =
  readyState :: readyState
  closure_userId :: json
  transmitted :: "json list"

record state =
  \<comment> \<open>EventEmitter\<close>
  events :: "string \<rightharpoonup> callback list"
  \<comment> \<open>WebSocketManager\<close>
  ws :: "nat option"
  reconnectAttempts :: nat
  isConnecting :: bool
  messageQueue :: "json list"
  subscriptions :: "jsobj list"
  \<comment> \<open>useRealTimeUpdates\<close>
  messagePollingRef :: "nat option"
  currentConversationRef :: "(json \<times> json) option"
  \<comment> \<open>the browser\<close>
  sockets :: "nat \<Rightarrow> socket"
  next_socket :: nat
  timers :: "(nat \<times> json \<times> bool) list"
  intervals :: "nat \<rightharpoonup> (nat \<times> json \<times> json)"
  next_interval :: nat
  next_addr :: nat
  console :: "string list"
  calls :: "(callback \<times> json) list"
  fnstore :: "callback \<Rightarrow> json \<Rightarrow> string option"

text \<open>
  The constructor sets \<^verbatim>\<open>maxReconnectAttempts = 5\<close> and
  \<^verbatim>\<open>reconnectDelay = 1000\<close>; no method assigns them again.
\<close>

definition maxReconnectAttempts :: nat where
  "maxReconnectAttempts = 5"

definition reconnectDelay :: nat where
  "reconnectDelay = 1000"

text \<open>The module after its top-level statements ran, with a given store of callbacks.\<close>

definition init :: "(callback \<Rightarrow> json \<Rightarrow> string option) \<Rightarrow> state" where
  "init fs = \<lparr> events = Map.empty, ws = None, reconnectAttempts = 0, isConnecting = False,
     messageQueue = [], subscriptions = [], messagePollingRef = None,
     currentConversationRef = None,
     sockets = (\<lambda>_. \<lparr> readyState = CLOSED, closure_userId = JUndefined, transmitted = [] \<rparr>),
     next_socket = 0, timers = [], intervals = Map.empty, next_interval = 1, next_addr = 0,
     console = [], calls = [], fnstore = fs \<rparr>"

text \<open>\<^verbatim>\<open>console.error\<close>: the fixed first argument is kept.\<close>

definition console_error :: "string \<Rightarrow> state \<Rightarrow> state" where
  "console_error msg s = s\<lparr> console := console s @ [msg] \<rparr>"

section \<open>EventEmitter\<close>

text \<open>
  An operation that may throw returns the thrown value (if any) with the state at
  that moment.

  \<^verbatim>\<open>this.events = {}\<close> is a plain object: \<open>events\<close> holds its own properties,
  and a read of \<^verbatim>\<open>this.events[event]\<close> that finds no own property goes on to
  \<^verbatim>\<open>Object.prototype\<close>. The members found there are functions, or the prototype
  itself for \<^verbatim>\<open>__proto__\<close>: truthy values that are not arrays.
\<close>

type_synonym outcome = "string option \<times> state"

definition object_prototype :: "string list" where
  "object_prototype =
     [''constructor'', ''__defineGetter__'', ''__defineSetter__'', ''hasOwnProperty'',
      ''__lookupGetter__'', ''__lookupSetter__'', ''isPrototypeOf'', ''propertyIsEnumerable'',
      ''toString'', ''valueOf'', ''__proto__'', ''toLocaleString'']"

datatype property = Missing | Own "callback list" | Inherited

definition events_get :: "state \<Rightarrow> string \<Rightarrow> property" where
  "events_get s event =
     (case events s event of
        Some cbs \<Rightarrow> Own cbs
      | None \<Rightarrow> if event \<in> set object_prototype then Inherited else Missing)"

definition registered :: "state \<Rightarrow> string \<Rightarrow> callback list" where
  "registered s event = (case events s event of None \<Rightarrow> [] | Some cbs \<Rightarrow> cbs)"

text \<open>
  \<^verbatim>\<open>on(event, callback)\<close>. A missing list is created, then the callback is
  pushed; on an inherited member \<^verbatim>\<open>push\<close> is not a function. The closure
  returned is \<open>off event callback\<close>; it reads \<^verbatim>\<open>this.events[event].filter\<close>.
\<close>

definition on :: "string \<Rightarrow> callback \<Rightarrow> state \<Rightarrow> outcome" where
  "on event cb s =
     (case events_get s event of
        Missing \<Rightarrow> (None, s\<lparr> events := (events s)(event \<mapsto> [] @ [cb]) \<rparr>)
      | Own cbs \<Rightarrow> (None, s\<lparr> events := (events s)(event \<mapsto> cbs @ [cb]) \<rparr>)
      | Inherited \<Rightarrow> (Some ''TypeError'', s))"

definition off :: "string \<Rightarrow> callback \<Rightarrow> state \<Rightarrow> outcome" where
  "off event cb s =
     (case events_get s event of
        Missing \<Rightarrow> (Some ''TypeError'', s)
      | Own cbs \<Rightarrow> (None, s\<lparr> events := (events s)(event \<mapsto> filter (\<lambda>c. c \<noteq> cb) cbs) \<rparr>)
      | Inherited \<Rightarrow> (Some ''TypeError'', s))"

text \<open>Calling a function object: the call is recorded, then it returns or throws.\<close>

definition invoke :: "callback \<Rightarrow> json \<Rightarrow> state \<Rightarrow> outcome" where
  "invoke cb data s = (fnstore s cb data, s\<lparr> calls := calls s @ [(cb, data)] \<rparr>)"

text \<open>\<^verbatim>\<open>Array.prototype.forEach\<close>: an exception of the body ends the iteration.\<close>

fun forEach :: "('a \<Rightarrow> state \<Rightarrow> outcome) \<Rightarrow> 'a list \<Rightarrow> state \<Rightarrow> outcome" where
  "forEach f [] s = (None, s)"
| "forEach f (x # xs) s =
     (case f x s of (Some e, s') \<Rightarrow> (Some e, s') | (None, s') \<Rightarrow> forEach f xs s')"

text \<open>The body of the arrow function in \<^verbatim>\<open>emit\<close>: \<^verbatim>\<open>try { callback(data) } catch\<close>.\<close>

definition emit_body :: "json \<Rightarrow> callback \<Rightarrow> state \<Rightarrow> outcome" where
  "emit_body data cb s =
     (case invoke cb data s of
        (Some e, s') \<Rightarrow> (None, console_error ''Error in event callback:'' s')
      | (None, s') \<Rightarrow> (None, s'))"

text \<open>
  \<^verbatim>\<open>emit(event, data)\<close>. On an inherited member the test is truthy and
  \<^verbatim>\<open>forEach\<close> is not a function: the error leaves \<^verbatim>\<open>emit\<close>.
\<close>

definition emit :: "string \<Rightarrow> json \<Rightarrow> state \<Rightarrow> outcome" where
  "emit event data s =
     (case events_get s event of
        Missing \<Rightarrow> (None, s)
      | Own cbs \<Rightarrow> forEach (emit_body data) cbs s
      | Inherited \<Rightarrow> (Some ''TypeError'', s))"

text \<open>The error lines one publish writes: one per callback that throws, in order.\<close>

definition emit_errors :: "state \<Rightarrow> string \<Rightarrow> json \<Rightarrow> string list" where
  "emit_errors s event data =
     map (\<lambda>_. ''Error in event callback:'')
       (filter (\<lambda>cb. fnstore s cb data \<noteq> None) (registered s event))"

section \<open>WebSocketManager\<close>

text \<open>
  \<^verbatim>\<open>send(message)\<close>: transmit when the manager's socket is open, queue otherwise.
\<close>

definition ws_open :: "state \<Rightarrow> bool" where
  "ws_open s = (case ws s of None \<Rightarrow> False | Some i \<Rightarrow> readyState (sockets s i) = OPEN)"

definition ws_send :: "nat \<Rightarrow> json \<Rightarrow> state \<Rightarrow> state" where
  "ws_send i message s =
     s\<lparr> sockets := (sockets s)(i := (sockets s i)\<lparr> transmitted := transmitted (sockets s i) @ [message] \<rparr>) \<rparr>"

definition send :: "json \<Rightarrow> state \<Rightarrow> state" where
  "send message s =
     (case ws s of
        Some i \<Rightarrow>
          if readyState (sockets s i) = OPEN then ws_send i message s
          else s\<lparr> messageQueue := messageQueue s @ [message] \<rparr>
      | None \<Rightarrow> s\<lparr> messageQueue := messageQueue s @ [message] \<rparr>)"

text \<open>
  \<^verbatim>\<open>this.subscriptions\<close> is a \<^verbatim>\<open>Set\<close>: it keeps insertion order and
  compares its members, which are objects, by identity.
\<close>

definition set_has :: "jsobj list \<Rightarrow> jsobj \<Rightarrow> bool" where
  "set_has xs x = (addr x \<in> addr ` set xs)"

definition set_add :: "jsobj \<Rightarrow> jsobj list \<Rightarrow> jsobj list" where
  "set_add x xs = (if set_has xs x then xs else xs @ [x])"

definition set_delete :: "jsobj \<Rightarrow> jsobj list \<Rightarrow> jsobj list" where
  "set_delete x xs = filter (\<lambda>y. addr y \<noteq> addr x) xs"

definition subscribe :: "jsobj \<Rightarrow> state \<Rightarrow> state" where
  "subscribe subscription s =
     send (JObj (props subscription))
       (s\<lparr> subscriptions := set_add subscription (subscriptions s) \<rparr>)"

text \<open>
  \<^verbatim>\<open>{ ...subscription, action: "unsubscribe" }\<close>: a property that is already
  there keeps its place and takes the new value, a new one goes last.
\<close>

fun set_prop :: "string \<Rightarrow> json \<Rightarrow> (string \<times> json) list \<Rightarrow> (string \<times> json) list" where
  "set_prop k v [] = [(k, v)]"
| "set_prop k v ((k', v') # fs) = (if k' = k then (k, v) # fs else (k', v') # set_prop k v fs)"

definition unsubscribe :: "jsobj \<Rightarrow> state \<Rightarrow> state" where
  "unsubscribe subscription s =
     send (JObj (set_prop ''action'' (JStr ''unsubscribe'') (props subscription)))
       (s\<lparr> subscriptions := set_delete subscription (subscriptions s) \<rparr>)"

text \<open>
  \<^verbatim>\<open>connect(userId)\<close>. The flag says whether \<^verbatim>\<open>new WebSocket(wsUrl)\<close>
  throws; then \<^verbatim>\<open>this.ws\<close> keeps its value and the \<^verbatim>\<open>catch\<close> runs.
\<close>

definition connect :: "json \<Rightarrow> bool \<Rightarrow> state \<Rightarrow> state" where
  "connect userId ctor_throws s =
     (if isConnecting s \<or> ws_open s then s
      else if ctor_throws then
        console_error ''Failed to create WebSocket connection:''
          (s\<lparr> isConnecting := True \<rparr>)\<lparr> isConnecting := False \<rparr>
      else
        s\<lparr> isConnecting := True,
           ws := Some (next_socket s),
           sockets := (sockets s)(next_socket s :=
              \<lparr> readyState = CONNECTING, closure_userId = userId, transmitted = [] \<rparr>),
           next_socket := Suc (next_socket s) \<rparr>)"

text \<open>
  The loop \<^verbatim>\<open>while (this.messageQueue.length > 0) { shift; send }\<close>. When
  \<^verbatim>\<open>send\<close> queues again the loop does not end; the result is then \<open>None\<close>.
\<close>

partial_function (option) drain :: "state \<Rightarrow> state option" where
  "drain s =
     (if length (messageQueue s) > 0
      then drain (send (hd (messageQueue s)) (s\<lparr> messageQueue := tl (messageQueue s) \<rparr>))
      else Some s)"

declare drain.simps [code]

text \<open>
  The handlers of socket \<open>i\<close>. \<^verbatim>\<open>onopen\<close>: authenticate, drain the queue,
  replay the subscriptions, publish.
\<close>

definition replay :: "state \<Rightarrow> state" where
  "replay s = foldl (\<lambda>s' subscription. send (JObj (props subscription)) s') s (subscriptions s)"

definition onopen :: "nat \<Rightarrow> state \<Rightarrow> state option" where
  "onopen i s =
     (let userId = closure_userId (sockets s i);
          s1 = s\<lparr> isConnecting := False, reconnectAttempts := 0 \<rparr>;
          s2 = (if truthy userId
                then send (JObj [(''type'', JStr ''auth''), (''userId'', userId)]) s1 else s1)
      in case drain s2 of
           None \<Rightarrow> None
         | Some s3 \<Rightarrow> Some (snd (emit ''websocket_connected'' JUndefined (replay s3))))"

text \<open>
  \<^verbatim>\<open>onopen\<close> and \<^verbatim>\<open>onclose\<close> publish under a fixed name as their last
  statement; the state they leave is the one \<open>emit\<close> leaves.

  Property read \<^verbatim>\<open>v.k\<close> on a value that is neither null nor undefined, for the
  two names the module reads, \<^verbatim>\<open>type\<close> and \<^verbatim>\<open>message\<close>, which no
  prototype defines: only an object can have them.
\<close>

fun get_prop :: "json \<Rightarrow> string \<Rightarrow> json" where
  "get_prop (JObj fs) k = (case map_of fs k of None \<Rightarrow> JUndefined | Some v \<Rightarrow> v)"
| "get_prop v k = JUndefined"

text \<open>
  The conversion of a value to the property key \<^verbatim>\<open>this.events[event]\<close> uses:
  an array joins the keys of its elements with commas, null and undefined elements
  giving the empty text.
\<close>

fun join :: "string list \<Rightarrow> string" where
  "join [] = []"
| "join [x] = x"
| "join (x # y # ys) = x @ '','' @ join (y # ys)"

fun to_key :: "json \<Rightarrow> string" where
  "to_key JUndefined = ''undefined''"
| "to_key JNull = ''null''"
| "to_key (JBool b) = (if b then ''true'' else ''false'')"
| "to_key (JNum n) = n"
| "to_key (JStr x) = x"
| "to_key (JArr xs) =
     join (map (\<lambda>x. if x = JUndefined \<or> x = JNull then [] else to_key x) xs)"
| "to_key (JObj fs) = ''[object Object]''"

text \<open>
  \<^verbatim>\<open>onmessage\<close>. The argument is the result of \<^verbatim>\<open>JSON.parse(event.data)\<close>,
  \<open>None\<close> when it throws. \<open>onmessage_try\<close> is the \<^verbatim>\<open>try\<close> block: reading
  \<^verbatim>\<open>data.type\<close> of \<^verbatim>\<open>null\<close> throws, and so does a publish under an
  inherited name; what it throws ends in the \<^verbatim>\<open>catch\<close>, which writes one line.
\<close>

definition onmessage_try :: "json option \<Rightarrow> state \<Rightarrow> outcome" where
  "onmessage_try parsed s =
     (case parsed of
        None \<Rightarrow> (Some ''SyntaxError'', s)
      | Some data \<Rightarrow>
          if data = JNull \<or> data = JUndefined then (Some ''TypeError'', s)
          else
            let ty = get_prop data ''type''
            in case emit (to_key ty) data s of
                 (Some e, s1) \<Rightarrow> (Some e, s1)
               | (None, s1) \<Rightarrow>
                   if ty = JStr ''job_updated'' then emit ''job_update'' data s1
                   else if ty = JStr ''new_message''
                     then emit ''new_message'' (get_prop data ''message'') s1
                   else if ty = JStr ''payment_updated'' then emit ''payment_update'' data s1
                   else if ty = JStr ''escrow_released'' then emit ''escrow_released'' data s1
                   else if ty = JStr ''transaction_updated''
                     then emit ''transaction_update'' data s1
                   else (None, s1))"

definition onmessage :: "json option \<Rightarrow> state \<Rightarrow> state" where
  "onmessage parsed s =
     (case onmessage_try parsed s of
        (Some e, s') \<Rightarrow> console_error ''Error parsing WebSocket message:'' s'
      | (None, s') \<Rightarrow> s')"

text \<open>
  \<^verbatim>\<open>onclose\<close>: \<^verbatim>\<open>setTimeout(() => this.connect(userId), delay)\<close> adds a
  timer, kept as the delay, the captured identity and whether it has fired.
\<close>

definition onclose :: "nat \<Rightarrow> state \<Rightarrow> state" where
  "onclose i s =
     (let s1 = s\<lparr> isConnecting := False, ws := None \<rparr>
      in if reconnectAttempts s1 < maxReconnectAttempts then
           let s2 = s1\<lparr> reconnectAttempts := reconnectAttempts s1 + 1 \<rparr>;
               delay = reconnectDelay * 2 ^ (reconnectAttempts s2 - 1)
           in s2\<lparr> timers := timers s2 @ [(delay, closure_userId (sockets s i), False)] \<rparr>
         else
           snd (emit ''websocket_disconnected'' JUndefined
                  (console_error ''Max reconnection attempts reached'' s1)))"

definition onerror :: "nat \<Rightarrow> state \<Rightarrow> state" where
  "onerror i s = (console_error ''WebSocket error:'' s)\<lparr> isConnecting := False \<rparr>"

text \<open>\<^verbatim>\<open>ws.close()\<close> starts the closing handshake of a socket that is not closed yet.\<close>

definition ws_close :: "nat \<Rightarrow> state \<Rightarrow> state" where
  "ws_close i s =
     (if readyState (sockets s i) = CLOSING \<or> readyState (sockets s i) = CLOSED then s
      else s\<lparr> sockets := (sockets s)(i := (sockets s i)\<lparr> readyState := CLOSING \<rparr>) \<rparr>)"

definition disconnect :: "state \<Rightarrow> state" where
  "disconnect s =
     (let s1 = (case ws s of None \<Rightarrow> s | Some i \<Rightarrow> (ws_close i s)\<lparr> ws := None \<rparr>)
      in s1\<lparr> subscriptions := [], messageQueue := [], reconnectAttempts := 0,
             isConnecting := False \<rparr>)"

section \<open>The browser's side\<close>

text \<open>
  The browser sets \<^verbatim>\<open>readyState\<close> before it dispatches \<^verbatim>\<open>open\<close> and
  \<^verbatim>\<open>close\<close>; a timer that fires leaves the pending list and runs its closure.
\<close>

definition set_readyState :: "nat \<Rightarrow> readyState \<Rightarrow> state \<Rightarrow> state" where
  "set_readyState i r s = s\<lparr> sockets := (sockets s)(i := (sockets s i)\<lparr> readyState := r \<rparr>) \<rparr>"

definition fire_open :: "nat \<Rightarrow> state \<Rightarrow> state option" where
  "fire_open i s = onopen i (set_readyState i OPEN s)"

definition fire_close :: "nat \<Rightarrow> state \<Rightarrow> state" where
  "fire_close i s = onclose i (set_readyState i CLOSED s)"

definition fire_timer :: "nat \<Rightarrow> bool \<Rightarrow> state \<Rightarrow> state" where
  "fire_timer k ctor_throws s =
     (if k < length (timers s) \<and> \<not> snd (snd (timers s ! k))
      then connect (fst (snd (timers s ! k))) ctor_throws
             (s\<lparr> timers := (timers s)[k := (fst (timers s ! k), fst (snd (timers s ! k)), True)] \<rparr>)
      else s)"

text \<open>The delays of all \<^verbatim>\<open>setTimeout\<close> calls so far, and the timers still pending.\<close>

definition delays :: "state \<Rightarrow> nat list" where
  "delays s = map fst (timers s)"

definition pending :: "state \<Rightarrow> (nat \<times> json) list" where
  "pending s = map (\<lambda>t. (fst t, fst (snd t))) (filter (\<lambda>t. \<not> snd (snd t)) (timers s))"

text \<open>
  One turn of the event loop: a call from outside the manager, an event of a socket
  or a timer. \<open>run\<close> takes the turns in order.
\<close>

datatype event =
    Connect json bool
  | Disconnect
  | Send json
  | Subscribe jsobj
  | Unsubscribe jsobj
  | Open nat
  | Message "json option"
  | Close nat
  | Error nat
  | Timeout nat bool

fun step :: "event \<Rightarrow> state \<Rightarrow> state option" where
  "step (Connect userId ctor_throws) s = Some (connect userId ctor_throws s)"
| "step Disconnect s = Some (disconnect s)"
| "step (Send message) s = Some (send message s)"
| "step (Subscribe x) s = Some (subscribe x s)"
| "step (Unsubscribe x) s = Some (unsubscribe x s)"
| "step (Open i) s = fire_open i s"
| "step (Message parsed) s = Some (onmessage parsed s)"
| "step (Close i) s = Some (fire_close i s)"
| "step (Error i) s = Some (onerror i s)"
| "step (Timeout k ctor_throws) s = Some (fire_timer k ctor_throws s)"

fun run :: "event list \<Rightarrow> state \<Rightarrow> state option" where
  "run [] s = Some s"
| "run (e # es) s = (case step e s of None \<Rightarrow> None | Some s' \<Rightarrow> run es s')"

section \<open>useRealTimeUpdates\<close>

text \<open>
  \<^verbatim>\<open>subscribeToJobUpdates(jobId, callback)\<close>. The object literal is a new object
  at each call, and \<^verbatim>\<open>job_update\<close> is not an inherited name, so \<^verbatim>\<open>on\<close>
  returns. The teardown closure captures \<^verbatim>\<open>subscription\<close> and the handle of
  \<^verbatim>\<open>on\<close>; it is \<open>teardown_job subscription callback\<close>.
\<close>

definition subscribeToJobUpdates :: "json \<Rightarrow> callback \<Rightarrow> state \<Rightarrow> jsobj \<times> state" where
  "subscribeToJobUpdates jobId cb s =
     (let subscription = \<lparr> addr = next_addr s,
            props = [(''type'', JStr ''subscribe_job''), (''jobId'', jobId)] \<rparr>;
          s1 = subscribe subscription (s\<lparr> next_addr := Suc (next_addr s) \<rparr>)
      in (subscription, snd (on ''job_update'' cb s1)))"

definition teardown_job :: "jsobj \<Rightarrow> callback \<Rightarrow> state \<Rightarrow> outcome" where
  "teardown_job subscription cb s = off ''job_update'' cb (unsubscribe subscription s)"

text \<open>
  \<^verbatim>\<open>startMessagePolling\<close> and the body of its interval. What
  \<^verbatim>\<open>messageAPI.getMessages\<close> settles to is given from outside: a rejection, or
  a value with the truthiness of \<^verbatim>\<open>success\<close> and the list \<^verbatim>\<open>messages\<close>
  (\<open>None\<close> when it is missing).
\<close>

datatype fetch = Rejected string | Resolved bool "json list option"

definition clearInterval :: "nat \<Rightarrow> state \<Rightarrow> state" where
  "clearInterval t s = s\<lparr> intervals := (intervals s)(t := None) \<rparr>"

definition startMessagePolling :: "json \<Rightarrow> json \<Rightarrow> state \<Rightarrow> state" where
  "startMessagePolling jobId recipientId s =
     (let s1 = (case messagePollingRef s of None \<Rightarrow> s | Some t \<Rightarrow> clearInterval t s);
          s2 = s1\<lparr> currentConversationRef := Some (jobId, recipientId) \<rparr>
      in s2\<lparr> intervals := (intervals s2)(next_interval s2 \<mapsto> (5000, jobId, recipientId)),
             messagePollingRef := Some (next_interval s2),
             next_interval := Suc (next_interval s2) \<rparr>)"

definition stopMessagePolling :: "state \<Rightarrow> state" where
  "stopMessagePolling s =
     (let s1 = (case messagePollingRef s of None \<Rightarrow> s
                | Some t \<Rightarrow> (clearInterval t s)\<lparr> messagePollingRef := None \<rparr>)
      in s1\<lparr> currentConversationRef := None \<rparr>)"

text \<open>The \<^verbatim>\<open>try\<close> block of the interval's body, and the body with its \<^verbatim>\<open>catch\<close>.\<close>

definition poll_try :: "fetch \<Rightarrow> state \<Rightarrow> outcome" where
  "poll_try r s =
     (case r of
        Rejected e \<Rightarrow> (Some e, s)
      | Resolved success messages \<Rightarrow>
          (case messages of
             None \<Rightarrow> (None, s)
           | Some ms \<Rightarrow>
               if success \<and> length ms > 0
               then emit ''new_message'' (ms ! (length ms - 1)) s
               else (None, s)))"

definition poll_tick :: "fetch \<Rightarrow> state \<Rightarrow> state" where
  "poll_tick r s =
     (case poll_try r s of
        (Some e, s') \<Rightarrow> console_error ''Error polling messages:'' s'
      | (None, s') \<Rightarrow> s')"

section \<open>Auxiliary notions for the statements\<close>

text \<open>The state in which socket \<open>i\<close> has transmitted the messages \<open>ms\<close> more.\<close>

definition transmit_all :: "nat \<Rightarrow> json list \<Rightarrow> state \<Rightarrow> state" where
  "transmit_all i ms s =
     s\<lparr> sockets := (sockets s)(i := (sockets s i)\<lparr> transmitted := transmitted (sockets s i) @ ms \<rparr>) \<rparr>"

text \<open>
  Turns that run \<^verbatim>\<open>onclose\<close>, and turns that run \<^verbatim>\<open>onopen\<close> or
  \<^verbatim>\<open>disconnect\<close>; the first \<open>k\<close> delays of the backoff, of which there are five.
\<close>

fun is_close :: "event \<Rightarrow> bool" where
  "is_close (Close i) = True"
| "is_close e = False"

fun resets :: "event \<Rightarrow> bool" where
  "resets (Open i) = True"
| "resets Disconnect = True"
| "resets e = False"



text \<open>The authentication message \<^verbatim>\<open>onopen\<close> sends for an identity, if any.\<close>

definition auth_messages :: "json \<Rightarrow> json list" where
  "auth_messages userId =
     (if truthy userId then [JObj [(''type'', JStr ''auth''), (''userId'', userId)]] else [])"

text \<open>The wire form of the entries of the subscription set, in the set's order.\<close>

definition replayed :: "state \<Rightarrow> json list" where
  "replayed s = map (\<lambda>x. JObj (props x)) (subscriptions s)"

section \<open>Concrete values used as examples\<close>

definition no_throw :: "callback \<Rightarrow> json \<Rightarrow> string option" where
  "no_throw cb data = None"

definition ping :: json where
  "ping = JObj [(''type'', JStr ''ping'')]"

definition job_sub :: "nat \<Rightarrow> string \<Rightarrow> jsobj" where
  "job_sub a j = \<lparr> addr = a, props = [(''type'', JStr ''subscribe_job''), (''jobId'', JStr j)] \<rparr>"

definition auth :: "string \<Rightarrow> json" where
  "auth u = JObj [(''type'', JStr ''auth''), (''userId'', JStr u)]"

text \<open>
  A manager about to reopen: it was open for \<^verbatim>\<open>u1\<close>, took a subscription to job
  \<^verbatim>\<open>j1\<close>, lost the socket, queued a ping, and its retry timer has created
  socket 1. Callback 7 listens to \<^verbatim>\<open>websocket_connected\<close>.
\<close>

definition reopening :: "state option" where
  "reopening =
     run [Connect (JStr ''u1'') False, Open 0, Subscribe (job_sub 0 ''j1''), Close 0,
          Send ping, Timeout 0 False]
       (snd (on ''websocket_connected'' 7 (init no_throw)))"

text \<open>
  A manager that is open for \<^verbatim>\<open>u1\<close>; then one and two calls of
  \<^verbatim>\<open>subscribeToJobUpdates\<close> for the same job \<^verbatim>\<open>j1\<close>; then the socket is
  lost and the retry timer has created socket 1.
\<close>

definition opened :: state where
  "opened = the (run [Connect (JStr ''u1'') False, Open 0] (init no_throw))"

definition once_subscribed :: "jsobj \<times> state" where
  "once_subscribed = subscribeToJobUpdates (JStr ''j1'') 1 opened"



definition unsub :: "string \<Rightarrow> json" where
  "unsub j = JObj [(''type'', JStr ''subscribe_job''), (''jobId'', JStr j),
                   (''action'', JStr ''unsubscribe'')]"

text \<open>
  Five losses of the socket in a row, each retry timer firing before the next loss,
  no socket ever opening. Callback 9 listens to \<^verbatim>\<open>websocket_disconnected\<close>.
\<close>

definition five_closes :: "event list" where
  "five_closes =
     [Connect (JStr ''u1'') False, Close 0, Timeout 0 False, Close 1, Timeout 1 False,
      Close 2, Timeout 2 False, Close 3, Timeout 3 False, Close 4, Timeout 4 False]"

definition listening :: state where
  "listening = snd (on ''websocket_disconnected'' 9 (init no_throw))"

text \<open>The manager after the sixth close: it has given up.\<close>

definition given_up :: state where
  "given_up = fire_close 5 (the (run five_closes listening))"

text \<open>
  States of the emitter: one listener for chat messages; three listeners for
  \<^verbatim>\<open>job_update\<close>; the same with a store in which callback 2 throws, and a
  fourth listener for \<^verbatim>\<open>payment_update\<close>; callback 1 registered twice around
  callback 2; callback 1 registered, removed by its handle and registered again.
\<close>

definition chat_listener :: state where
  "chat_listener = snd (on ''new_message'' 5 (init no_throw))"






text \<open>Polling for a conversation while callback 5 listens.\<close>

definition polling :: state where
  "polling = startMessagePolling (JStr ''j1'') (JStr ''r1'') chat_listener"

text \<open>
  Three ways to a socket that opens while the manager no longer holds it. In each,
  socket 0 is given up on (by an error, by \<^verbatim>\<open>disconnect\<close>, or because the server
  has started the closing handshake), a further \<^verbatim>\<open>connect\<close> creates socket 1,
  and then the close event of socket 0 arrives and clears \<^verbatim>\<open>this.ws\<close>.
\<close>

definition stale_close_after_error :: state where
  "stale_close_after_error =
     the (run [Connect (JStr ''u1'') False, Error 0, Connect (JStr ''u2'') False, Close 0]
            (init no_throw))"

definition stale_close_after_disconnect :: state where
  "stale_close_after_disconnect =
     the (run [Connect (JStr ''u1'') False, Disconnect, Connect (JStr ''u2'') False, Close 0]
            (init no_throw))"

definition stale_close_while_closing :: state where
  "stale_close_while_closing =
     fire_close 0 (connect (JStr ''u2'') False (set_readyState 0 CLOSING opened))"

section \<open>Properties of the EventEmitter\<close>

lemma emit_body_eq:
  "emit_body data cb s =
     (None, s\<lparr> calls := calls s @ [(cb, data)],
              console := console s @
                 (if fnstore s cb data = None then [] else [''Error in event callback:'']) \<rparr>)"
  by (cases "fnstore s cb data") (simp_all add: emit_body_def invoke_def console_error_def)

lemma forEach_emit_body:
  "forEach (emit_body data) cbs s =
     (None, s\<lparr> calls := calls s @ map (\<lambda>cb. (cb, data)) cbs,
              console := console s @ map (\<lambda>_. ''Error in event callback:'')
                 (filter (\<lambda>cb. fnstore s cb data \<noteq> None) cbs) \<rparr>)"
proof (induction cbs arbitrary: s)
  case Nil
  show ?case by simp
next
  case (Cons cb cbs)
  have step: "forEach (emit_body data) (cb # cbs) s =
      forEach (emit_body data) cbs (snd (emit_body data cb s))"
    by (simp add: emit_body_eq)
  show ?case
    unfolding step Cons.IH by (simp add: emit_body_eq)
qed

lemma not_inherited [simp]:
  "''websocket_connected'' \<notin> set object_prototype"
  "''websocket_disconnected'' \<notin> set object_prototype"
  "''job_update'' \<notin> set object_prototype"
  "''new_message'' \<notin> set object_prototype"
  "''payment_update'' \<notin> set object_prototype"
  "''escrow_released'' \<notin> set object_prototype"
  "''transaction_update'' \<notin> set object_prototype"
  by (simp_all add: object_prototype_def)

lemma toString_inherited [simp]: "''toString'' \<in> set object_prototype"
  by (simp add: object_prototype_def)

lemma emit_eq:
  "event \<notin> set object_prototype \<Longrightarrow>
   emit event data s =
     (None, s\<lparr> calls := calls s @ map (\<lambda>cb. (cb, data)) (registered s event),
              console := console s @ emit_errors s event data \<rparr>)"
  by (cases "events s event")
    (simp_all add: emit_def events_get_def registered_def emit_errors_def forEach_emit_body)


lemma emit_cases:
  "emit event data s = (Some ''TypeError'', s) \<or>
   emit event data s =
     (None, s\<lparr> calls := calls s @ map (\<lambda>cb. (cb, data)) (registered s event),
              console := console s @ emit_errors s event data \<rparr>)"
  by (cases "events s event")
    (simp_all add: emit_def events_get_def registered_def emit_errors_def forEach_emit_body)

lemma emit_fields [simp]:
  "events (snd (emit event data s)) = events s"
  "fnstore (snd (emit event data s)) = fnstore s"
  "reconnectAttempts (snd (emit event data s)) = reconnectAttempts s"
  "timers (snd (emit event data s)) = timers s"
  "ws (snd (emit event data s)) = ws s"
  "isConnecting (snd (emit event data s)) = isConnecting s"
  "sockets (snd (emit event data s)) = sockets s"
  "messageQueue (snd (emit event data s)) = messageQueue s"
  "subscriptions (snd (emit event data s)) = subscriptions s"
  "intervals (snd (emit event data s)) = intervals s"
  "messagePollingRef (snd (emit event data s)) = messagePollingRef s"
  using emit_cases [of event data s] by auto

lemma registered_emit [simp]: "registered (snd (emit event data s)) e = registered s e"
  by (simp add: registered_def)

lemma snd_emit:
  "event \<notin> set object_prototype \<Longrightarrow>
   snd (emit event data s) =
     s\<lparr> calls := calls s @ map (\<lambda>cb. (cb, data)) (registered s event),
        console := console s @ emit_errors s event data \<rparr>"
  by (simp add: emit_eq)

lemma on_eq:
  "event \<notin> set object_prototype \<Longrightarrow>
   on event cb s = (None, s\<lparr> events := (events s)(event \<mapsto> registered s event @ [cb]) \<rparr>)"
  by (cases "events s event") (simp_all add: on_def events_get_def registered_def)


lemma on_cases:
  "on event cb s = (Some ''TypeError'', s) \<or>
   on event cb s = (None, s\<lparr> events := (events s)(event \<mapsto> registered s event @ [cb]) \<rparr>)"
  by (cases "events s event") (simp_all add: on_def events_get_def registered_def)

lemma on_fields [simp]:
  "subscriptions (snd (on e cb s)) = subscriptions s"
  "ws (snd (on e cb s)) = ws s"
  "sockets (snd (on e cb s)) = sockets s"
  "messageQueue (snd (on e cb s)) = messageQueue s"
  "next_addr (snd (on e cb s)) = next_addr s"
  "calls (snd (on e cb s)) = calls s"
  "console (snd (on e cb s)) = console s"
  "fnstore (snd (on e cb s)) = fnstore s"
  "timers (snd (on e cb s)) = timers s"
  "reconnectAttempts (snd (on e cb s)) = reconnectAttempts s"
  "isConnecting (snd (on e cb s)) = isConnecting s"
  "next_socket (snd (on e cb s)) = next_socket s"
  "next_interval (snd (on e cb s)) = next_interval s"
  "intervals (snd (on e cb s)) = intervals s"
  "messagePollingRef (snd (on e cb s)) = messagePollingRef s"
  using on_cases [of e cb s] by auto

lemma registered_on:
  "event \<notin> set object_prototype \<Longrightarrow>
   registered (snd (on event cb s)) e =
     (if e = event then registered s event @ [cb] else registered s e)"
  by (simp add: registered_def on_eq)

lemma off_Some:
  "events s event = Some cbs \<Longrightarrow>
     off event cb s = (None, s\<lparr> events := (events s)(event \<mapsto> filter (\<lambda>c. c \<noteq> cb) cbs) \<rparr>)"
  by (simp add: off_def events_get_def)

lemma registered_off:
  "events s event = Some cbs \<Longrightarrow>
   registered (snd (off event cb s)) e =
     (if e = event then filter (\<lambda>c. c \<noteq> cb) cbs else registered s e)"
  by (simp add: registered_def off_Some)

lemma registered_init [simp]: "registered (init fs) e = []"
  by (simp add: registered_def init_def)








section \<open>Properties of the WebSocketManager\<close>

lemma ws_send_transmit: "ws_send i m s = transmit_all i [m] s"
  by (simp add: ws_send_def transmit_all_def)

lemma transmit_all_twice:
  "transmit_all i ms (transmit_all i ms' s) = transmit_all i (ms' @ ms) s"
  by (simp add: transmit_all_def)

lemma transmit_all_Nil [simp]: "transmit_all i [] s = s"
  by (simp add: transmit_all_def)

lemma transmit_all_fields [simp]:
  "ws (transmit_all i ms s) = ws s"
  "messageQueue (transmit_all i ms s) = messageQueue s"
  "subscriptions (transmit_all i ms s) = subscriptions s"
  "readyState (sockets (transmit_all i ms s) j) = readyState (sockets s j)"
  "closure_userId (sockets (transmit_all i ms s) j) = closure_userId (sockets s j)"
  "events (transmit_all i ms s) = events s"
  "calls (transmit_all i ms s) = calls s"
  "console (transmit_all i ms s) = console s"
  "fnstore (transmit_all i ms s) = fnstore s"
  "reconnectAttempts (transmit_all i ms s) = reconnectAttempts s"
  "isConnecting (transmit_all i ms s) = isConnecting s"
  "timers (transmit_all i ms s) = timers s"
  by (simp_all add: transmit_all_def)

lemma transmitted_transmit_all:
  "transmitted (sockets (transmit_all i ms s) j) =
     (if j = i then transmitted (sockets s i) @ ms else transmitted (sockets s j))"
  by (simp add: transmit_all_def)

lemma send_open:
  "ws s = Some i \<Longrightarrow> readyState (sockets s i) = OPEN \<Longrightarrow> send m s = transmit_all i [m] s"
  by (simp add: send_def ws_send_transmit)

lemma send_closed:
  "\<not> ws_open s \<Longrightarrow> send m s = s\<lparr> messageQueue := messageQueue s @ [m] \<rparr>"
  by (auto simp: send_def ws_open_def split: option.splits)

lemma transmit_all_queue_update:
  "(transmit_all i ms s)\<lparr> messageQueue := q \<rparr> = transmit_all i ms (s\<lparr> messageQueue := q \<rparr>)"
  by (simp add: transmit_all_def)

lemma drain_open:
  "ws s = Some i \<Longrightarrow> readyState (sockets s i) = OPEN \<Longrightarrow>
     drain s = Some (transmit_all i (messageQueue s) (s\<lparr> messageQueue := [] \<rparr>))"
proof (induction "messageQueue s" arbitrary: s)
  case Nil
  then show ?case by (subst drain.simps) simp
next
  case (Cons m q)
  define s' where "s' = transmit_all i [m] (s\<lparr> messageQueue := q \<rparr>)"
  have q: "messageQueue s = m # q" using Cons.hyps(2) by simp
  have "send (hd (messageQueue s)) (s\<lparr> messageQueue := tl (messageQueue s) \<rparr>) = s'"
    using Cons.prems by (simp add: q s'_def send_open)
  then have "drain s = drain s'"
    by (subst drain.simps) (simp add: q)
  also have "\<dots> = Some (transmit_all i (messageQueue s') (s'\<lparr> messageQueue := [] \<rparr>))"
    by (rule Cons.hyps(1)) (simp_all add: s'_def Cons.prems)
  also have "\<dots> = Some (transmit_all i (messageQueue s) (s\<lparr> messageQueue := [] \<rparr>))"
    by (simp add: s'_def q transmit_all_queue_update transmit_all_twice)
  finally show ?case .
qed

lemma replay_open_aux:
  "ws s = Some i \<Longrightarrow> readyState (sockets s i) = OPEN \<Longrightarrow>
     foldl (\<lambda>s' x. send (JObj (props x)) s') s xs = transmit_all i (map (\<lambda>x. JObj (props x)) xs) s"
proof (induction xs arbitrary: s)
  case Nil
  then show ?case by simp
next
  case (Cons x xs)
  have "foldl (\<lambda>s' x. send (JObj (props x)) s') s (x # xs) =
        foldl (\<lambda>s' x. send (JObj (props x)) s') (transmit_all i [JObj (props x)] s) xs"
    using Cons.prems by (simp add: send_open)
  also have "\<dots> = transmit_all i (map (\<lambda>x. JObj (props x)) xs) (transmit_all i [JObj (props x)] s)"
    by (rule Cons.IH) (simp_all add: Cons.prems)
  finally show ?case by (simp add: transmit_all_twice)
qed

lemma replay_open:
  "ws s = Some i \<Longrightarrow> readyState (sockets s i) = OPEN \<Longrightarrow>
     replay s = transmit_all i (replayed s) s"
  by (simp add: replay_def replayed_def replay_open_aux)

lemma set_readyState_fields [simp]:
  "ws (set_readyState i r s) = ws s"
  "messageQueue (set_readyState i r s) = messageQueue s"
  "subscriptions (set_readyState i r s) = subscriptions s"
  "readyState (sockets (set_readyState i r s) j) = (if j = i then r else readyState (sockets s j))"
  "closure_userId (sockets (set_readyState i r s) j) = closure_userId (sockets s j)"
  "transmitted (sockets (set_readyState i r s) j) = transmitted (sockets s j)"
  "events (set_readyState i r s) = events s"
  "calls (set_readyState i r s) = calls s"
  "console (set_readyState i r s) = console s"
  "fnstore (set_readyState i r s) = fnstore s"
  "reconnectAttempts (set_readyState i r s) = reconnectAttempts s"
  "isConnecting (set_readyState i r s) = isConnecting s"
  "timers (set_readyState i r s) = timers s"
  by (simp_all add: set_readyState_def)

lemma onopen_eq:
  assumes "ws s = Some i" and "readyState (sockets s i) = OPEN"
  shows "onopen i s =
     Some (snd (emit ''websocket_connected'' JUndefined
       (transmit_all i (auth_messages (closure_userId (sockets s i)) @ messageQueue s @ replayed s)
          (s\<lparr> isConnecting := False, reconnectAttempts := 0, messageQueue := [] \<rparr>))))"
proof -
  define uid where "uid = closure_userId (sockets s i)"
  define s1 where "s1 = s\<lparr> isConnecting := False, reconnectAttempts := 0 \<rparr>"
  define s2 where "s2 = (if truthy uid
     then send (JObj [(''type'', JStr ''auth''), (''userId'', uid)]) s1 else s1)"
  have s1: "ws s1 = Some i" "readyState (sockets s1 i) = OPEN" "messageQueue s1 = messageQueue s"
    "subscriptions s1 = subscriptions s"
    using assms by (simp_all add: s1_def)
  have s2: "s2 = transmit_all i (auth_messages uid) s1"
    by (simp add: s2_def auth_messages_def send_open s1)
  have d: "drain s2 = Some (transmit_all i (auth_messages uid @ messageQueue s) (s1\<lparr> messageQueue := [] \<rparr>))"
    by (subst drain_open [of s2 i])
      (simp_all add: s2 s1 transmit_all_queue_update transmit_all_twice)
  have r: "replay (transmit_all i (auth_messages uid @ messageQueue s) (s1\<lparr> messageQueue := [] \<rparr>))
      = transmit_all i (auth_messages uid @ messageQueue s @ replayed s) (s1\<lparr> messageQueue := [] \<rparr>)"
    by (subst replay_open [of _ i]) (simp_all add: s1 transmit_all_twice replayed_def)
  have "onopen i s = (case drain s2 of None \<Rightarrow> None
      | Some s3 \<Rightarrow> Some (snd (emit ''websocket_connected'' JUndefined (replay s3))))"
    by (simp add: onopen_def Let_def uid_def s1_def s2_def)
  also have "\<dots> = Some (snd (emit ''websocket_connected'' JUndefined
      (replay (transmit_all i (auth_messages uid @ messageQueue s) (s1\<lparr> messageQueue := [] \<rparr>)))))"
    by (simp add: d)
  also have "\<dots> = Some (snd (emit ''websocket_connected'' JUndefined
      (transmit_all i (auth_messages uid @ messageQueue s @ replayed s) (s1\<lparr> messageQueue := [] \<rparr>))))"
    by (simp only: r)
  finally show ?thesis
    by (simp add: uid_def s1_def)
qed

lemma fire_open_eq:
  assumes "ws s = Some i"
  shows "fire_open i s =
     Some (snd (emit ''websocket_connected'' JUndefined
       (transmit_all i (auth_messages (closure_userId (sockets s i)) @ messageQueue s @ replayed s)
          ((set_readyState i OPEN s)\<lparr> isConnecting := False, reconnectAttempts := 0, messageQueue := [] \<rparr>))))"
  unfolding fire_open_def
  by (subst onopen_eq [of _ i]) (simp_all add: assms replayed_def)

lemma send_fields [simp]:
  "ws (send m s) = ws s"
  "subscriptions (send m s) = subscriptions s"
  "events (send m s) = events s"
  "calls (send m s) = calls s"
  "console (send m s) = console s"
  "fnstore (send m s) = fnstore s"
  "reconnectAttempts (send m s) = reconnectAttempts s"
  "isConnecting (send m s) = isConnecting s"
  "timers (send m s) = timers s"
  "next_addr (send m s) = next_addr s"
  "readyState (sockets (send m s) j) = readyState (sockets s j)"
  "closure_userId (sockets (send m s) j) = closure_userId (sockets s j)"
  by (simp_all add: send_def ws_send_def split: option.splits)

lemma messageQueue_send:
  "messageQueue (send m s) = (if ws_open s then messageQueue s else messageQueue s @ [m])"
  by (simp add: send_def ws_open_def ws_send_def split: option.splits)

lemma transmitted_send:
  "transmitted (sockets (send m s) j) =
     (if ws_open s \<and> ws s = Some j then transmitted (sockets s j) @ [m] else transmitted (sockets s j))"
  by (auto simp: send_def ws_open_def ws_send_def split: option.splits)

lemma ws_open_send [simp]: "ws_open (send m s) = ws_open s"
  by (simp add: ws_open_def split: option.splits)

lemma ws_open_update [simp]:
  "ws_open (s\<lparr> subscriptions := x \<rparr>) = ws_open s"
  "ws_open (s\<lparr> events := y \<rparr>) = ws_open s"
  "ws_open (s\<lparr> messageQueue := q \<rparr>) = ws_open s"
  "ws_open (s\<lparr> isConnecting := b \<rparr>) = ws_open s"
  "ws_open (s\<lparr> reconnectAttempts := n \<rparr>) = ws_open s"
  by (simp_all add: ws_open_def split: option.splits)

text \<open>
  When the socket the manager holds opens, the handler transmits on it,
  in this order: the authentication message (if the identity is truthy), the queued
  messages oldest first, and then every entry of the subscription set; the queue is
  empty afterwards, and \<^verbatim>\<open>websocket_connected\<close> is published once, after the
  transmissions (each callback registered for it is invoked once).
\<close>

lemma open_of_held_socket:
  assumes "ws s = Some i"
  shows "\<exists>s'. fire_open i s = Some s' \<and>
     s' = snd (emit ''websocket_connected'' JUndefined
       (transmit_all i (auth_messages (closure_userId (sockets s i)) @ messageQueue s @ replayed s)
          ((set_readyState i OPEN s)\<lparr> isConnecting := False, reconnectAttempts := 0,
              messageQueue := [] \<rparr>))) \<and>
     transmitted (sockets s' i) = transmitted (sockets s i)
        @ auth_messages (closure_userId (sockets s i)) @ messageQueue s @ replayed s \<and>
     messageQueue s' = [] \<and>
     subscriptions s' = subscriptions s \<and>
     calls s' = calls s @ map (\<lambda>cb. (cb, JUndefined)) (registered s ''websocket_connected'')"
  by (simp add: fire_open_eq [OF assms] emit_eq transmitted_transmit_all registered_def)

text \<open>
  For example with identity \<^verbatim>\<open>u1\<close>, a ping in the queue and the
  subscription to job \<^verbatim>\<open>j1\<close> in the set.
\<close>

lemma open_of_held_socket_example:
  "ws (the reopening) = Some 1 \<and>
   messageQueue (the reopening) = [ping] \<and>
   replayed (the reopening) = [JObj (props (job_sub 0 ''j1''))] \<and>
   (\<exists>s'. fire_open 1 (the reopening) = Some s' \<and>
      transmitted (sockets s' 1) = [auth ''u1'', ping, JObj (props (job_sub 0 ''j1''))] \<and>
      messageQueue s' = [] \<and>
      calls s' = calls (the reopening) @ [(7, JUndefined)])"
proof -
  have w: "ws (the reopening) = Some 1"
    by code_simp
  have q: "messageQueue (the reopening) = [ping]"
    by code_simp
  have r: "replayed (the reopening) = [JObj (props (job_sub 0 ''j1''))]"
    by code_simp
  have u: "auth_messages (closure_userId (sockets (the reopening) 1)) = [auth ''u1'']"
    by code_simp
  have t: "transmitted (sockets (the reopening) 1) = []"
    by code_simp
  have c: "registered (the reopening) ''websocket_connected'' = [7]"
    by code_simp
  from open_of_held_socket [OF w] obtain s' where
    A: "fire_open 1 (the reopening) = Some s'" and
    B: "transmitted (sockets s' 1) = transmitted (sockets (the reopening) 1)
          @ auth_messages (closure_userId (sockets (the reopening) 1))
          @ messageQueue (the reopening) @ replayed (the reopening)" and
    C: "messageQueue s' = []" and
    D: "calls s' = calls (the reopening)
          @ map (\<lambda>cb. (cb, JUndefined)) (registered (the reopening) ''websocket_connected'')"
    by blast
  have B': "transmitted (sockets s' 1) = [auth ''u1'', ping, JObj (props (job_sub 0 ''j1''))]"
    unfolding B q r u t by simp
  have D': "calls s' = calls (the reopening) @ [(7, JUndefined)]"
    unfolding D c by simp
  show ?thesis
    using w q r A B' C D' by blast
qed

text \<open>
  When the manager's socket is not open, \<^verbatim>\<open>send\<close> puts each message it is
  given back at the end of the queue, so the loop of \<^verbatim>\<open>onopen\<close> over a
  non-empty queue does not end.
\<close>

lemma drain_Some:
  assumes "drain s = Some y"
  shows "ws_open s \<or> messageQueue s = []"
proof (rule drain.raw_induct [where P = "\<lambda>s y. ws_open s \<or> messageQueue s = []", OF _ assms])
  fix d s sa
  assume IH: "\<And>x y. d x = Some y \<Longrightarrow> ws_open x \<or> messageQueue x = []"
    and eq: "(if 0 < length (messageQueue s)
              then d (send (hd (messageQueue s)) (s\<lparr> messageQueue := tl (messageQueue s) \<rparr>))
              else Some s) = Some sa"
  show "ws_open s \<or> messageQueue s = []"
  proof (rule ccontr)
    assume "\<not> (ws_open s \<or> messageQueue s = [])"
    then have c: "\<not> ws_open s" and q: "messageQueue s \<noteq> []"
      by simp_all
    let ?s' = "send (hd (messageQueue s)) (s\<lparr> messageQueue := tl (messageQueue s) \<rparr>)"
    from eq q have "d ?s' = Some sa"
      by simp
    from IH [OF this] have "ws_open ?s' \<or> messageQueue ?s' = []" .
    moreover have "\<not> ws_open ?s'"
      using c by simp
    moreover have "messageQueue ?s' \<noteq> []"
      using c by (simp add: messageQueue_send)
    ultimately show False by simp
  qed
qed

lemma drain_closed:
  assumes "\<not> ws_open s" and "messageQueue s \<noteq> []"
  shows "drain s = None"
proof (cases "drain s")
  case None
  then show ?thesis .
next
  case (Some y)
  from drain_Some [OF this] assms show ?thesis by simp
qed

lemma fire_open_hangs:
  assumes "ws s = None" and "truthy (closure_userId (sockets s i))"
  shows "fire_open i s = None"
proof -
  define s1 where "s1 = (set_readyState i OPEN s)\<lparr> isConnecting := False, reconnectAttempts := 0 \<rparr>"
  define s2 where
    "s2 = send (JObj [(''type'', JStr ''auth''), (''userId'', closure_userId (sockets s i))]) s1"
  have c1: "\<not> ws_open s1"
    using assms(1) by (simp add: s1_def ws_open_def)
  have c2: "\<not> ws_open s2" "messageQueue s2 \<noteq> []"
    using c1 by (simp_all add: s2_def messageQueue_send)
  have "onopen i (set_readyState i OPEN s) =
      (case drain s2 of None \<Rightarrow> None
       | Some s3 \<Rightarrow> Some (snd (emit ''websocket_connected'' JUndefined (replay s3))))"
    using assms(2) by (simp add: onopen_def Let_def s1_def s2_def)
  then show ?thesis
    by (simp add: fire_open_def drain_closed [OF c2])
qed

text \<open>
  Claim C5 at concrete inputs. In each of the three states the manager has created
  socket 1 for \<^verbatim>\<open>u2\<close>, which is still connecting, and the late close event of
  socket 0 has cleared \<^verbatim>\<open>this.ws\<close>. When socket 1 then opens, \<^verbatim>\<open>onopen\<close>
  queues the authentication message instead of transmitting it, and its loop over
  the queue never ends: the handler does not return, nothing is transmitted and
  \<^verbatim>\<open>websocket_connected\<close> is not published.
\<close>

theorem open_without_socket_hangs:
  "ws stale_close_after_error = None \<and>
   readyState (sockets stale_close_after_error 1) = CONNECTING \<and>
   closure_userId (sockets stale_close_after_error 1) = JStr ''u2'' \<and>
   fire_open 1 stale_close_after_error = None \<and>
   ws stale_close_after_disconnect = None \<and>
   readyState (sockets stale_close_after_disconnect 1) = CONNECTING \<and>
   fire_open 1 stale_close_after_disconnect = None \<and>
   ws stale_close_while_closing = None \<and>
   readyState (sockets stale_close_while_closing 1) = CONNECTING \<and>
   fire_open 1 stale_close_while_closing = None"
proof -
  have a: "ws stale_close_after_error = None"
    "readyState (sockets stale_close_after_error 1) = CONNECTING"
    "closure_userId (sockets stale_close_after_error 1) = JStr ''u2''"
    by code_simp+
  have b: "ws stale_close_after_disconnect = None"
    "readyState (sockets stale_close_after_disconnect 1) = CONNECTING"
    "closure_userId (sockets stale_close_after_disconnect 1) = JStr ''u2''"
    by code_simp+
  have c: "ws stale_close_while_closing = None"
    "readyState (sockets stale_close_while_closing 1) = CONNECTING"
    "closure_userId (sockets stale_close_while_closing 1) = JStr ''u2''"
    by code_simp+
  have ta: "truthy (closure_userId (sockets stale_close_after_error 1))"
    unfolding a(3) by simp
  have tb: "truthy (closure_userId (sockets stale_close_after_disconnect 1))"
    unfolding b(3) by simp
  have tc: "truthy (closure_userId (sockets stale_close_while_closing 1))"
    unfolding c(3) by simp
  note fire_open_hangs [OF a(1) ta] fire_open_hangs [OF b(1) tb] fire_open_hangs [OF c(1) tc]
  with a b c show ?thesis by blast
qed


lemma subscriptions_unsubscribe:
  "subscriptions (unsubscribe x s) = set_delete x (subscriptions s)"
  by (simp add: unsubscribe_def)





lemma teardown_job_eq:
  assumes "events s ''job_update'' = Some cbs"
  shows "teardown_job x cb s =
     (None, (unsubscribe x s)\<lparr> events := (events s)(''job_update'' \<mapsto> filter (\<lambda>c. c \<noteq> cb) cbs) \<rparr>)"
  using assms by (simp add: teardown_job_def off_def events_get_def unsubscribe_def)

lemma set_delete_idem: "set_delete x (set_delete x xs) = set_delete x xs"
  by (simp add: set_delete_def)

lemma subscribeToJobUpdates_events:
  "events (snd (subscribeToJobUpdates jobId cb s)) ''job_update'' =
     Some (registered s ''job_update'' @ [cb])"
  by (simp add: subscribeToJobUpdates_def Let_def on_eq registered_def subscribe_def)

text \<open>
  Claim C3, as stated, fails in its last part: the teardown calls
  \<^verbatim>\<open>wsManager.unsubscribe\<close>, which sends the cancellation at every call. After
  one subscription on an open socket, two teardowns transmit two cancellations.
\<close>

theorem single_unsubscribe_counterexample:
  "transmitted (sockets (snd once_subscribed) 0) = [auth ''u1'', JObj (props (job_sub 0 ''j1''))] \<and>
   transmitted (sockets (snd (teardown_job (fst once_subscribed) 1
        (snd (teardown_job (fst once_subscribed) 1 (snd once_subscribed))))) 0) =
     [auth ''u1'', JObj (props (job_sub 0 ''j1'')), unsub ''j1'', unsub ''j1'']"
  by code_simp

text \<open>
  Claim C3, amended. \<^verbatim>\<open>subscribeToJobUpdates\<close> leaves a callback list for
  \<^verbatim>\<open>job_update\<close>; in any state that has one, invoking the teardown twice does
  not throw, the first invocation removes the subscription object from the set and
  the callback from the list, the second changes neither, and each invocation hands
  one cancellation message to \<^verbatim>\<open>send\<close>: two invocations transmit two of them
  when the socket is open and queue two of them otherwise.
\<close>

theorem teardown_twice:
  assumes "events s ''job_update'' = Some cbs"
  shows "events (snd (subscribeToJobUpdates jobId cb s0)) ''job_update'' \<noteq> None \<and>
    (\<exists>s1 s2. teardown_job x cb s = (None, s1) \<and> teardown_job x cb s1 = (None, s2) \<and>
       subscriptions s1 = set_delete x (subscriptions s) \<and>
       subscriptions s2 = subscriptions s1 \<and>
       registered s1 ''job_update'' = filter (\<lambda>c. c \<noteq> cb) cbs \<and>
       registered s2 ''job_update'' = registered s1 ''job_update'' \<and>
       (let u = JObj (set_prop ''action'' (JStr ''unsubscribe'') (props x))
        in if ws_open s
           then messageQueue s2 = messageQueue s \<and>
                (\<exists>i. ws s = Some i \<and> transmitted (sockets s1 i) = transmitted (sockets s i) @ [u]
                   \<and> transmitted (sockets s2 i) = transmitted (sockets s i) @ [u, u])
           else messageQueue s1 = messageQueue s @ [u] \<and> messageQueue s2 = messageQueue s @ [u, u]))"
proof -
  define s1 where "s1 = (unsubscribe x s)\<lparr> events := (events s)(''job_update'' \<mapsto> filter (\<lambda>c. c \<noteq> cb) cbs) \<rparr>"
  define s2 where "s2 = (unsubscribe x s1)\<lparr> events := (events s1)(''job_update'' \<mapsto> filter (\<lambda>c. c \<noteq> cb) (filter (\<lambda>c. c \<noteq> cb) cbs)) \<rparr>"
  have e1: "events s1 ''job_update'' = Some (filter (\<lambda>c. c \<noteq> cb) cbs)"
    by (simp add: s1_def)
  have t1: "teardown_job x cb s = (None, s1)"
    unfolding s1_def by (rule teardown_job_eq [OF assms])
  have t2: "teardown_job x cb s1 = (None, s2)"
    unfolding s2_def by (rule teardown_job_eq [OF e1])
  have o1: "ws_open s1 = ws_open s" "ws s1 = ws s"
    by (simp_all add: s1_def unsubscribe_def)
  have sub: "subscriptions s1 = set_delete x (subscriptions s)" "subscriptions s2 = subscriptions s1"
    by (simp_all add: s1_def s2_def subscriptions_unsubscribe set_delete_idem)
  have reg: "registered s1 ''job_update'' = filter (\<lambda>c. c \<noteq> cb) cbs"
     "registered s2 ''job_update'' = registered s1 ''job_update''"
    by (simp_all add: s1_def s2_def registered_def)
  define u where "u = JObj (set_prop ''action'' (JStr ''unsubscribe'') (props x))"
  have q1: "messageQueue s1 = (if ws_open s then messageQueue s else messageQueue s @ [u])"
    by (simp add: s1_def unsubscribe_def messageQueue_send u_def)
  have q2: "messageQueue s2 = (if ws_open s then messageQueue s1 else messageQueue s1 @ [u])"
    using o1 by (simp add: s2_def unsubscribe_def messageQueue_send u_def)
  have tr1: "transmitted (sockets s1 i) =
      (if ws_open s \<and> ws s = Some i then transmitted (sockets s i) @ [u] else transmitted (sockets s i))" for i
    by (simp add: s1_def unsubscribe_def transmitted_send u_def)
  have tr2: "transmitted (sockets s2 i) =
      (if ws_open s \<and> ws s = Some i then transmitted (sockets s1 i) @ [u] else transmitted (sockets s1 i))" for i
    using o1 by (simp add: s2_def unsubscribe_def transmitted_send u_def)
  have wire: "if ws_open s
           then messageQueue s2 = messageQueue s \<and>
                (\<exists>i. ws s = Some i \<and> transmitted (sockets s1 i) = transmitted (sockets s i) @ [u]
                   \<and> transmitted (sockets s2 i) = transmitted (sockets s i) @ [u, u])
           else messageQueue s1 = messageQueue s @ [u] \<and> messageQueue s2 = messageQueue s @ [u, u]"
  proof (cases "ws_open s")
    case True
    then obtain i where i: "ws s = Some i"
      by (auto simp: ws_open_def split: option.splits)
    show ?thesis
      using True i by (simp add: q1 q2 tr1 tr2)
  next
    case False
    then show ?thesis by (simp add: q1 q2)
  qed
  have "events (snd (subscribeToJobUpdates jobId cb s0)) ''job_update'' \<noteq> None"
    by (simp add: subscribeToJobUpdates_events)
  with t1 t2 sub reg wire show ?thesis
    unfolding Let_def u_def by blast
qed

theorem teardown_twice_witness:
  "events (snd once_subscribed) ''job_update'' = Some [1] \<and>
   subscriptions (snd once_subscribed) = [job_sub 0 ''j1''] \<and>
   (\<exists>s1 s2. teardown_job (fst once_subscribed) 1 (snd once_subscribed) = (None, s1) \<and>
      teardown_job (fst once_subscribed) 1 s1 = (None, s2) \<and>
      subscriptions s1 = [] \<and> subscriptions s2 = [] \<and>
      registered s1 ''job_update'' = [] \<and> registered s2 ''job_update'' = [] \<and>
      transmitted (sockets s1 0) = [auth ''u1'', JObj (props (job_sub 0 ''j1'')), unsub ''j1''] \<and>
      transmitted (sockets s2 0) =
        [auth ''u1'', JObj (props (job_sub 0 ''j1'')), unsub ''j1'', unsub ''j1''])"
proof -
  have e: "events (snd once_subscribed) ''job_update'' = Some [1]"
    by code_simp
  have subs: "subscriptions (snd once_subscribed) = [job_sub 0 ''j1'']"
    by code_simp
  have d: "set_delete (fst once_subscribed) (subscriptions (snd once_subscribed)) = []"
    by code_simp
  have o: "ws_open (snd once_subscribed)" "ws (snd once_subscribed) = Some 0"
    by code_simp+
  have u: "JObj (set_prop ''action'' (JStr ''unsubscribe'') (props (fst once_subscribed))) = unsub ''j1''"
    by code_simp
  have t: "transmitted (sockets (snd once_subscribed) 0) = [auth ''u1'', JObj (props (job_sub 0 ''j1''))]"
    by code_simp
  from teardown_twice [OF e, of "JStr ''j1''" 1 opened "fst once_subscribed"]
  obtain s1 s2 where
    A: "teardown_job (fst once_subscribed) 1 (snd once_subscribed) = (None, s1)"
       "teardown_job (fst once_subscribed) 1 s1 = (None, s2)" and
    B: "subscriptions s1 = []" "subscriptions s2 = []" and
    C: "registered s1 ''job_update'' = []" "registered s2 ''job_update'' = []" and
    D: "transmitted (sockets s1 0) = [auth ''u1'', JObj (props (job_sub 0 ''j1'')), unsub ''j1'']"
       "transmitted (sockets s2 0) =
          [auth ''u1'', JObj (props (job_sub 0 ''j1'')), unsub ''j1'', unsub ''j1'']"
    unfolding Let_def u d using o t by auto
  show ?thesis
    using e subs A B C D by blast
qed

text \<open>
  Claim C6. For an inbound object whose \<^verbatim>\<open>type\<close> is \<^verbatim>\<open>new_message\<close> and
  whose \<^verbatim>\<open>message\<close> is \<open>m\<close>, the handler publishes twice, both times under
  the name \<^verbatim>\<open>new_message\<close>: first the whole object, then \<open>m\<close> alone. Each
  callback registered for \<^verbatim>\<open>new_message\<close> is so invoked with the envelope and
  then with \<open>m\<close>.
\<close>

theorem new_message_events:
  assumes "map_of fs ''type'' = Some (JStr ''new_message'')"
    and "map_of fs ''message'' = Some m"
  shows "onmessage (Some (JObj fs)) s =
           snd (emit ''new_message'' m (snd (emit ''new_message'' (JObj fs) s))) \<and>
         calls (onmessage (Some (JObj fs)) s) =
           calls s @ map (\<lambda>cb. (cb, JObj fs)) (registered s ''new_message'')
                   @ map (\<lambda>cb. (cb, m)) (registered s ''new_message'') \<and>
         console (onmessage (Some (JObj fs)) s) =
           console s @ emit_errors s ''new_message'' (JObj fs) @ emit_errors s ''new_message'' m"
proof -
  have eq: "onmessage (Some (JObj fs)) s =
           snd (emit ''new_message'' m (snd (emit ''new_message'' (JObj fs) s)))"
    using assms by (simp add: onmessage_def onmessage_try_def Let_def emit_eq)
  show ?thesis
    unfolding eq by (simp add: emit_eq registered_def emit_errors_def)
qed

text \<open>The example of the claim, with callback 5 listening.\<close>

theorem new_message_events_witness:
  "map_of [(''type'', JStr ''new_message''),
           (''message'', JObj [(''id'', JStr ''m1''), (''text'', JStr ''hi'')])] ''type''
     = Some (JStr ''new_message'') \<and>
   map_of [(''type'', JStr ''new_message''),
           (''message'', JObj [(''id'', JStr ''m1''), (''text'', JStr ''hi'')])] ''message''
     = Some (JObj [(''id'', JStr ''m1''), (''text'', JStr ''hi'')]) \<and>
   calls (onmessage (Some (JObj [(''type'', JStr ''new_message''),
           (''message'', JObj [(''id'', JStr ''m1''), (''text'', JStr ''hi'')])]))
        chat_listener) =
     [(5, JObj [(''type'', JStr ''new_message''),
           (''message'', JObj [(''id'', JStr ''m1''), (''text'', JStr ''hi'')])]),
      (5, JObj [(''id'', JStr ''m1''), (''text'', JStr ''hi'')])]"
proof -
  let ?m = "JObj [(''id'', JStr ''m1''), (''text'', JStr ''hi'')]"
  let ?fs = "[(''type'', JStr ''new_message''), (''message'', ?m)]"
  have a: "map_of ?fs ''type'' = Some (JStr ''new_message'')"
    by simp
  have b: "map_of ?fs ''message'' = Some ?m"
    by simp
  have c: "calls chat_listener = []"
    by (simp add: chat_listener_def init_def)
  have r: "registered chat_listener ''new_message'' = [5]"
    by (simp add: chat_listener_def registered_on)
  from new_message_events [OF a b, of chat_listener, THEN conjunct2, THEN conjunct1]
  have "calls (onmessage (Some (JObj ?fs)) chat_listener) = [(5, JObj ?fs), (5, ?m)]"
    unfolding c r by simp
  with a b show ?thesis by blast
qed

lemma poll_tick_resolved:
  "ms \<noteq> [] \<Longrightarrow> poll_tick (Resolved True (Some ms)) s = snd (emit ''new_message'' (last ms) s)"
  by (simp add: poll_tick_def poll_try_def last_conv_nth emit_eq)

lemma poll_tick_silent:
  "poll_tick (Resolved False messages) s = s"
  "poll_tick (Resolved success None) s = s"
  "poll_tick (Resolved success (Some [])) s = s"
  by (simp_all add: poll_tick_def poll_try_def split: option.splits)

lemma poll_tick_timer:
  "intervals (poll_tick r s) = intervals s"
  "messagePollingRef (poll_tick r s) = messagePollingRef s"
proof -
  have "intervals (poll_tick r s) = intervals s \<and>
        messagePollingRef (poll_tick r s) = messagePollingRef s"
  proof (cases r)
    case (Rejected e)
    then show ?thesis
      by (simp add: poll_tick_def poll_try_def console_error_def)
  next
    case (Resolved success messages)
    show ?thesis
    proof (cases "success \<and> (\<exists>ms. messages = Some ms \<and> ms \<noteq> [])")
      case True
      then obtain ms where "messages = Some ms" "ms \<noteq> []" "success"
        by blast
      then show ?thesis
        using Resolved by (simp add: poll_tick_resolved)
    next
      case False
      then have "poll_tick r s = s"
        using Resolved by (cases messages; cases success) (auto simp: poll_tick_silent)
      then show ?thesis by simp
    qed
  qed
  then show "intervals (poll_tick r s) = intervals s"
    and "messagePollingRef (poll_tick r s) = messagePollingRef s"
    by simp_all
qed

lemma startMessagePolling_fields [simp]:
  "registered (startMessagePolling jobId recipientId s) e = registered s e"
  "calls (startMessagePolling jobId recipientId s) = calls s"
  "console (startMessagePolling jobId recipientId s) = console s"
  by (simp_all add: startMessagePolling_def Let_def clearInterval_def registered_def
      split: option.splits)

lemma chat_listener_fields:
  "registered chat_listener ''new_message'' = [5]"
  "calls chat_listener = []" "console chat_listener = []" "next_interval chat_listener = 1"
  by (simp_all add: chat_listener_def registered_on) (simp_all add: init_def)

text \<open>
  Claim C9, as stated, fails for a fetch that resolves with a falsy
  \<^verbatim>\<open>success\<close>: whether that counts as a fetch that succeeded or as one that
  failed, the tick neither publishes nor logs. Here callback 5 listens and the
  fetch resolves with \<^verbatim>\<open>success\<close> false and one message.
\<close>

theorem unsuccessful_fetch_counterexample:
  "registered polling ''new_message'' = [5] \<and>
   calls polling = [] \<and> console polling = [] \<and>
   calls (poll_tick (Resolved False (Some [JStr ''m1''])) polling) = [] \<and>
   console (poll_tick (Resolved False (Some [JStr ''m1''])) polling) = []"
  by (simp add: poll_tick_silent polling_def chat_listener_fields)

text \<open>
  Claim C9, amended. \<^verbatim>\<open>startMessagePolling\<close> registers an interval of 5000 ms. A
  tick whose fetch resolves with a truthy \<^verbatim>\<open>success\<close> and a non-empty list does
  one publish, of \<^verbatim>\<open>new_message\<close> with the last element of the list, and
  nothing else. A tick whose fetch rejects writes one line to the console and
  publishes nothing. A tick whose fetch resolves with a falsy \<^verbatim>\<open>success\<close>, or
  with a missing or empty list, leaves the state as it is: nothing is published and
  nothing is logged. No tick touches the interval.
\<close>

theorem polling_latest_only:
  "intervals (startMessagePolling jobId recipientId s0) (next_interval s0) =
      Some (5000, jobId, recipientId) \<and>
   messagePollingRef (startMessagePolling jobId recipientId s0) = Some (next_interval s0) \<and>
   (ms \<noteq> [] \<longrightarrow>
      poll_tick (Resolved True (Some ms)) s = snd (emit ''new_message'' (last ms) s) \<and>
      calls (poll_tick (Resolved True (Some ms)) s) =
        calls s @ map (\<lambda>cb. (cb, last ms)) (registered s ''new_message'')) \<and>
   poll_tick (Rejected e) s = console_error ''Error polling messages:'' s \<and>
   console (poll_tick (Rejected e) s) = console s @ [''Error polling messages:''] \<and>
   calls (poll_tick (Rejected e) s) = calls s \<and>
   poll_tick (Resolved False messages) s = s \<and>
   poll_tick (Resolved success None) s = s \<and>
   poll_tick (Resolved success (Some [])) s = s \<and>
   intervals (poll_tick r s) = intervals s \<and>
   messagePollingRef (poll_tick r s) = messagePollingRef s"
proof -
  have a: "intervals (startMessagePolling jobId recipientId s0) (next_interval s0) =
      Some (5000, jobId, recipientId)"
    "messagePollingRef (startMessagePolling jobId recipientId s0) = Some (next_interval s0)"
    by (simp_all add: startMessagePolling_def Let_def clearInterval_def split: option.splits)
  have b: "poll_tick (Rejected e) s = console_error ''Error polling messages:'' s"
    by (simp add: poll_tick_def poll_try_def)
  show ?thesis
    unfolding b
    by (simp add: a poll_tick_resolved poll_tick_silent poll_tick_timer emit_eq console_error_def)
qed

text \<open>
  The example of the specification: a fetch returning three messages, callback 5
  listening; a failing fetch while the interval set up before stays; and a fetch
  that reports no success.
\<close>

theorem polling_latest_only_witness:
  "[JStr ''m1'', JStr ''m2'', JStr ''m3''] \<noteq> [] \<and>
   calls (poll_tick (Resolved True (Some [JStr ''m1'', JStr ''m2'', JStr ''m3''])) polling)
     = [(5, JStr ''m3'')] \<and>
   intervals (poll_tick (Rejected ''offline'') polling) 1 = Some (5000, JStr ''j1'', JStr ''r1'') \<and>
   console (poll_tick (Rejected ''offline'') polling) = [''Error polling messages:''] \<and>
   poll_tick (Resolved False (Some [JStr ''m1''])) polling = polling"
proof -
  have n: "next_interval chat_listener = 1"
    by (simp add: chat_listener_fields)
  have c: "calls polling = []" "console polling = []"
    by (simp_all add: polling_def chat_listener_fields)
  have r: "registered polling ''new_message'' = [5]"
    by (simp add: polling_def chat_listener_fields)
  have ne: "[JStr ''m1'', JStr ''m2'', JStr ''m3''] \<noteq> []"
    by simp
  let ?ms = "[JStr ''m1'', JStr ''m2'', JStr ''m3'']"
  from polling_latest_only [of "JStr ''j1''" "JStr ''r1''" chat_listener ?ms polling "''offline''"
      "Some [JStr ''m1'']" False "Rejected ''offline''"] ne
  have A0: "calls (poll_tick (Resolved True (Some ?ms)) polling) =
              calls polling @ map (\<lambda>cb. (cb, last ?ms)) (registered polling ''new_message'')"
    and B0: "intervals (startMessagePolling (JStr ''j1'') (JStr ''r1'') chat_listener)
              (next_interval chat_listener) = Some (5000, JStr ''j1'', JStr ''r1'')"
    and B1: "intervals (poll_tick (Rejected ''offline'') polling) = intervals polling"
    and C0: "console (poll_tick (Rejected ''offline'') polling) =
              console polling @ [''Error polling messages:'']"
    and D: "poll_tick (Resolved False (Some [JStr ''m1''])) polling = polling"
    by blast+
  have A: "calls (poll_tick (Resolved True (Some ?ms)) polling) = [(5, JStr ''m3'')]"
    unfolding A0 by (simp add: c r)
  have B: "intervals (poll_tick (Rejected ''offline'') polling) 1
             = Some (5000, JStr ''j1'', JStr ''r1'')"
    unfolding B1 using B0 by (simp add: polling_def n)
  have C: "console (poll_tick (Rejected ''offline'') polling) = [''Error polling messages:'']"
    unfolding C0 by (simp add: c)
  show ?thesis
    using ne A B C D by blast
qed

lemma connect_counter [simp]:
  "reconnectAttempts (connect u f s) = reconnectAttempts s"
  "timers (connect u f s) = timers s"
  "calls (connect u f s) = calls s"
  "events (connect u f s) = events s"
  by (simp_all add: connect_def console_error_def)

lemma emit_preserves:
  "emit k d s = (r, s1) \<Longrightarrow> reconnectAttempts s1 = reconnectAttempts s \<and> timers s1 = timers s"
  by (metis emit_fields(3,4) snd_conv)

lemma onmessage_try_preserves:
  "onmessage_try p s = (r, s1) \<Longrightarrow> reconnectAttempts s1 = reconnectAttempts s \<and> timers s1 = timers s"
  by (auto simp: onmessage_try_def Let_def split: option.splits prod.splits if_splits
      dest!: emit_preserves)

lemma onmessage_counter [simp]:
  "reconnectAttempts (onmessage p s) = reconnectAttempts s"
  "timers (onmessage p s) = timers s"
  by (auto simp: onmessage_def console_error_def split: option.splits prod.splits
      dest!: onmessage_try_preserves)

lemma onerror_counter [simp]:
  "reconnectAttempts (onerror i s) = reconnectAttempts s"
  "timers (onerror i s) = timers s"
  by (simp_all add: onerror_def console_error_def)

lemma subscribe_counter [simp]:
  "reconnectAttempts (subscribe x s) = reconnectAttempts s"
  "timers (subscribe x s) = timers s"
  "reconnectAttempts (unsubscribe x s) = reconnectAttempts s"
  "timers (unsubscribe x s) = timers s"
  by (simp_all add: subscribe_def unsubscribe_def)

lemma map_update_same:
  "k < length xs \<Longrightarrow> (map f xs)[k := f (xs ! k)] = map f xs"
  by (simp add: list_eq_iff_nth_eq nth_list_update)

lemma fire_timer_counter [simp]:
  "reconnectAttempts (fire_timer k f s) = reconnectAttempts s"
  "delays (fire_timer k f s) = delays s"
  by (simp_all add: fire_timer_def delays_def map_update map_update_same)

lemma delays_unchanged [simp]:
  "delays (connect u f s) = delays s"
  "delays (send m s) = delays s"
  "delays (subscribe x s) = delays s"
  "delays (unsubscribe x s) = delays s"
  "delays (onmessage p s) = delays s"
  "delays (onerror i s) = delays s"
  by (simp_all add: delays_def)

lemma fire_close_retry:
  "reconnectAttempts s < 5 \<Longrightarrow>
     fire_close i s = s\<lparr> sockets := (sockets s)(i := (sockets s i)\<lparr> readyState := CLOSED \<rparr>),
        isConnecting := False, ws := None,
        reconnectAttempts := Suc (reconnectAttempts s),
        timers := timers s @ [(1000 * 2 ^ reconnectAttempts s, closure_userId (sockets s i), False)] \<rparr>"
  by (simp add: fire_close_def onclose_def set_readyState_def Let_def
      maxReconnectAttempts_def reconnectDelay_def)

lemma fire_close_terminal:
  "\<not> reconnectAttempts s < 5 \<Longrightarrow>
     fire_close i s = snd (emit ''websocket_disconnected'' JUndefined
        (s\<lparr> sockets := (sockets s)(i := (sockets s i)\<lparr> readyState := CLOSED \<rparr>),
           isConnecting := False, ws := None,
           console := console s @ [''Max reconnection attempts reached''] \<rparr>))"
  by (simp add: fire_close_def onclose_def set_readyState_def Let_def
      maxReconnectAttempts_def console_error_def)

lemma step_counter:
  assumes "step e s = Some s1" and "\<not> resets e"
  shows "reconnectAttempts s1 =
           (if is_close e \<and> reconnectAttempts s < 5 then Suc (reconnectAttempts s)
            else reconnectAttempts s) \<and>
         delays s1 = delays s @
           (if is_close e \<and> reconnectAttempts s < 5 then [1000 * 2 ^ reconnectAttempts s] else [])"
proof (cases e)
  case (Close i)
  show ?thesis
  proof (cases "reconnectAttempts s < 5")
    case True
    with assms Close show ?thesis
      by (auto simp: fire_close_retry delays_def)
  next
    case False
    with assms Close show ?thesis
      by (auto simp: fire_close_terminal delays_def snd_emit)
  qed
qed (use assms in auto)





lemma fire_close_terminal_fields:
  assumes "\<not> reconnectAttempts s < 5"
  shows "delays (fire_close i s) = delays s" "pending (fire_close i s) = pending s"
    "calls (fire_close i s) =
       calls s @ map (\<lambda>cb. (cb, JUndefined)) (registered s ''websocket_disconnected'')"
    "ws (fire_close i s) = None" "\<not> isConnecting (fire_close i s)"
    "reconnectAttempts (fire_close i s) = reconnectAttempts s"
    "''Max reconnection attempts reached'' \<in> set (console (fire_close i s))"
  by (simp_all add: fire_close_terminal [OF assms] snd_emit delays_def pending_def registered_def)



lemma disconnect_counter: "reconnectAttempts (disconnect s) = 0"
  by (simp add: disconnect_def Let_def split: option.splits)

lemma connect_fresh:
  assumes "\<not> isConnecting s" and "ws s = None"
  shows "connect u False s =
     s\<lparr> isConnecting := True, ws := Some (next_socket s),
        sockets := (sockets s)(next_socket s :=
           \<lparr> readyState = CONNECTING, closure_userId = u, transmitted = [] \<rparr>),
        next_socket := Suc (next_socket s) \<rparr>"
  using assms by (simp add: connect_def ws_open_def)

text \<open>
  Claim C10. \<^verbatim>\<open>connect\<close> leaves the reconnect counter as it is, and so does
  every turn other than an open or a \<^verbatim>\<open>disconnect\<close>, except that a close may
  raise it; \<^verbatim>\<open>disconnect\<close> and the open of the manager's socket set it to zero.
  So when the manager has given up (counter at five, no socket, not connecting), a
  new \<^verbatim>\<open>connect\<close> creates a socket with the counter still at five, and when that
  socket closes without having opened, no retry is scheduled and
  \<^verbatim>\<open>websocket_disconnected\<close> is published at once.
\<close>

theorem counter_survives_connect:
  assumes "reconnectAttempts s = 5" and "\<not> isConnecting s" and "ws s = None"
  shows "reconnectAttempts (connect u f s0) = reconnectAttempts s0 \<and>
     (\<not> resets e \<longrightarrow> step e s0 = Some s1 \<longrightarrow> reconnectAttempts s0 \<le> reconnectAttempts s1) \<and>
     reconnectAttempts (disconnect s0) = 0 \<and>
     (ws s0 = Some i \<longrightarrow> (\<exists>s1. fire_open i s0 = Some s1 \<and> reconnectAttempts s1 = 0)) \<and>
     ws (connect u False s) = Some (next_socket s) \<and>
     isConnecting (connect u False s) \<and>
     readyState (sockets (connect u False s) (next_socket s)) = CONNECTING \<and>
     reconnectAttempts (connect u False s) = 5 \<and>
     delays (fire_close (next_socket s) (connect u False s)) = delays s \<and>
     pending (fire_close (next_socket s) (connect u False s)) = pending s \<and>
     calls (fire_close (next_socket s) (connect u False s)) =
       calls s @ map (\<lambda>cb. (cb, JUndefined)) (registered s ''websocket_disconnected'') \<and>
     ws (fire_close (next_socket s) (connect u False s)) = None \<and>
     \<not> isConnecting (fire_close (next_socket s) (connect u False s)) \<and>
     reconnectAttempts (fire_close (next_socket s) (connect u False s)) = 5"
proof -
  have a: "\<not> resets e \<longrightarrow> step e s0 = Some s1 \<longrightarrow> reconnectAttempts s0 \<le> reconnectAttempts s1"
    using step_counter [of e s0 s1] by auto
  have b: "ws s0 = Some i \<longrightarrow> (\<exists>s1. fire_open i s0 = Some s1 \<and> reconnectAttempts s1 = 0)"
    by (auto simp: fire_open_eq snd_emit)
  define s' where "s' = connect u False s"
  have c: "ws s' = Some (next_socket s)" "isConnecting s'"
    "readyState (sockets s' (next_socket s)) = CONNECTING" "reconnectAttempts s' = 5"
    "delays s' = delays s" "pending s' = pending s" "calls s' = calls s"
    "registered s' ''websocket_disconnected'' = registered s ''websocket_disconnected''"
    unfolding s'_def connect_fresh [OF assms(2,3)]
    by (simp_all add: assms(1) delays_def pending_def registered_def)
  have "\<not> reconnectAttempts s' < 5"
    by (simp add: c)
  note d = fire_close_terminal_fields [OF this, of "next_socket s"]
  have e: "delays (fire_close (next_socket s) s') = delays s"
    "pending (fire_close (next_socket s) s') = pending s"
    "calls (fire_close (next_socket s) s') =
       calls s @ map (\<lambda>cb. (cb, JUndefined)) (registered s ''websocket_disconnected'')"
    "ws (fire_close (next_socket s) s') = None"
    "\<not> isConnecting (fire_close (next_socket s) s')"
    "reconnectAttempts (fire_close (next_socket s) s') = 5"
    using d by (simp_all add: c)
  show ?thesis
    using a b c(1-4) e unfolding s'_def by (simp add: disconnect_counter)
qed

text \<open>The manager that has given up after six closes, connected anew for \<^verbatim>\<open>u2\<close>.\<close>

theorem counter_survives_connect_witness:
  "reconnectAttempts given_up = 5 \<and> \<not> isConnecting given_up \<and> ws given_up = None \<and>
   delays given_up = [1000, 2000, 4000, 8000, 16000] \<and>
   calls given_up = [(9, JUndefined)] \<and>
   ws (connect (JStr ''u2'') False given_up) = Some 6 \<and>
   reconnectAttempts (connect (JStr ''u2'') False given_up) = 5 \<and>
   delays (fire_close 6 (connect (JStr ''u2'') False given_up)) = [1000, 2000, 4000, 8000, 16000] \<and>
   calls (fire_close 6 (connect (JStr ''u2'') False given_up)) = [(9, JUndefined), (9, JUndefined)] \<and>
   ws (fire_close 6 (connect (JStr ''u2'') False given_up)) = None"
proof -
  have e: "(reconnectAttempts given_up, isConnecting given_up, ws given_up, delays given_up,
      calls given_up, next_socket given_up, registered given_up ''websocket_disconnected'')
      = (5, False, None, [1000, 2000, 4000, 8000, 16000], [(9, JUndefined)], 6, [9])"
    by (simp add: given_up_def five_closes_def listening_def init_def on_eq Let_def connect_def
        ws_open_def set_readyState_def fire_close_def onclose_def maxReconnectAttempts_def
        reconnectDelay_def fire_timer_def delays_def registered_def no_throw_def
        emit_def events_get_def emit_body_def invoke_def console_error_def)
  then have h: "reconnectAttempts given_up = 5" "\<not> isConnecting given_up" "ws given_up = None"
    and f: "delays given_up = [1000, 2000, 4000, 8000, 16000]" "calls given_up = [(9, JUndefined)]"
      "next_socket given_up = 6" "registered given_up ''websocket_disconnected'' = [9]"
    by simp_all
  from counter_survives_connect [OF h, of "JStr ''u2''"]
  have A: "ws (connect (JStr ''u2'') False given_up) = Some (next_socket given_up)"
    and B: "reconnectAttempts (connect (JStr ''u2'') False given_up) = 5"
    and C: "delays (fire_close (next_socket given_up) (connect (JStr ''u2'') False given_up))
              = delays given_up"
    and D: "calls (fire_close (next_socket given_up) (connect (JStr ''u2'') False given_up)) =
              calls given_up @ map (\<lambda>cb. (cb, JUndefined))
                (registered given_up ''websocket_disconnected'')"
    and E: "ws (fire_close (next_socket given_up) (connect (JStr ''u2'') False given_up)) = None"
    by blast+
  show ?thesis
    using h A B C D E unfolding f by simp
qed

text \<open>
  Claim C2 at a concrete input. The manager is open for \<^verbatim>\<open>u1\<close> with one job
  subscription; \<^verbatim>\<open>disconnect\<close> is called. Right after the call the state is reset:
  the socket is closing and no longer held, the set and the queue are empty, the
  counter is zero, no timer is pending. But the handlers of the socket are still in
  place: when its close event arrives, \<^verbatim>\<open>onclose\<close> finds the counter below five
  and schedules a retry after 1000 ms, and when that timer fires \<^verbatim>\<open>connect\<close>
  creates socket 1.
\<close>

theorem disconnect_then_reconnect:
  "ws (snd once_subscribed) = Some 0 \<and>
   readyState (sockets (snd once_subscribed) 0) = OPEN \<and>
   ws (disconnect (snd once_subscribed)) = None \<and>
   readyState (sockets (disconnect (snd once_subscribed)) 0) = CLOSING \<and>
   subscriptions (disconnect (snd once_subscribed)) = [] \<and>
   messageQueue (disconnect (snd once_subscribed)) = [] \<and>
   reconnectAttempts (disconnect (snd once_subscribed)) = 0 \<and>
   \<not> isConnecting (disconnect (snd once_subscribed)) \<and>
   pending (disconnect (snd once_subscribed)) = [] \<and>
   pending (fire_close 0 (disconnect (snd once_subscribed))) = [(1000, JStr ''u1'')] \<and>
   reconnectAttempts (fire_close 0 (disconnect (snd once_subscribed))) = 1 \<and>
   ws (fire_timer 0 False (fire_close 0 (disconnect (snd once_subscribed)))) = Some 1 \<and>
   isConnecting (fire_timer 0 False (fire_close 0 (disconnect (snd once_subscribed)))) \<and>
   readyState (sockets (fire_timer 0 False (fire_close 0 (disconnect (snd once_subscribed)))) 1)
     = CONNECTING"
  by code_simp

end
